theory Spec2Isabelle
  imports Main
begin

section \<open>JavaScript values\<close>

text \<open>
  The daemon is JavaScript, so the values that flow through the transfer service are
  dynamically typed. Numbers are the integers (NaN and fractions do not occur in the
  code modelled here); an object is the list of its own properties, in insertion order.
\<close>

datatype jv =
    JUndefined
  | JNull
  | JBool bool
  | JNum int
  | JStr string
  | JArr "jv list"
  | JObj "(string \<times> jv) list"

text \<open>What \<^verbatim>\<open>if (v)\<close> and \<^verbatim>\<open>!v\<close> test.\<close>

fun truthy :: "jv \<Rightarrow> bool" where
  "truthy JUndefined = False"
| "truthy JNull = False"
| "truthy (JBool b) = b"
| "truthy (JNum n) = (n \<noteq> 0)"
| "truthy (JStr s) = (s \<noteq> [])"
| "truthy (JArr xs) = True"
| "truthy (JObj kv) = True"

text \<open>
  An \<^verbatim>\<open>Error\<close> object: its constructor name, its message, and the \<^verbatim>\<open>code\<close>
  property (\<^verbatim>\<open>undefined\<close> unless somebody assigned one).
\<close>

record js_error =
  ename :: string
  message :: string
  code :: jv

definition Error :: "string \<Rightarrow> js_error" where
  "Error msg = \<lparr>ename = ''Error'', message = msg, code = JUndefined\<rparr>"

definition TypeError :: "string \<Rightarrow> js_error" where
  "TypeError msg = \<lparr>ename = ''TypeError'', message = msg, code = JUndefined\<rparr>"

text \<open>\<^verbatim>\<open>err.toString()\<close>: the name, and the message after a colon when there is one.\<close>

definition toString :: "js_error \<Rightarrow> string" where
  "toString e = (if message e = [] then ename e else ename e @ '': '' @ message e)"

text \<open>
  Reading a property \<^verbatim>\<open>v.k\<close>. On \<^verbatim>\<open>undefined\<close> and \<^verbatim>\<open>null\<close> it throws a
  TypeError; on an object it is the property's value, or \<^verbatim>\<open>undefined\<close> when the
  object has none. The metadata store hands out objects or \<^verbatim>\<open>undefined\<close> only, so
  the built-in properties of the other values are left out.
\<close>

definition field :: "(string \<times> jv) list \<Rightarrow> string \<Rightarrow> jv" where
  "field kv k = (case map_of kv k of None \<Rightarrow> JUndefined | Some v \<Rightarrow> v)"

fun member :: "jv \<Rightarrow> string \<Rightarrow> js_error + jv" where
  "member JUndefined k = Inl (TypeError (''Cannot read property '' @ k @ '' of undefined''))"
| "member JNull k = Inl (TypeError (''Cannot read property '' @ k @ '' of null''))"
| "member (JObj kv) k = Inr (field kv k)"
| "member v k = Inr JUndefined"

text \<open>
  The object spread \<^verbatim>\<open>{ ...v }\<close>: a fresh object with the own properties of an object,
  and no property at all for \<^verbatim>\<open>undefined\<close> and \<^verbatim>\<open>null\<close>.
\<close>

fun spread :: "jv \<Rightarrow> (string \<times> jv) list" where
  "spread (JObj kv) = kv"
| "spread v = []"

text \<open>\<^verbatim>\<open>delete o.k\<close>.\<close>

definition delete :: "string \<Rightarrow> (string \<times> jv) list \<Rightarrow> (string \<times> jv) list" where
  "delete k kv = filter (\<lambda>(k', v). k' \<noteq> k) kv"

text \<open>
  \<^verbatim>\<open>s.split(c)\<close> for a one-character separator: never the empty array, the empty
  string splits into one empty segment.
\<close>

fun split :: "char \<Rightarrow> string \<Rightarrow> string list" where
  "split c [] = [[]]"
| "split c (x # xs) =
     (if x = c then [] # split c xs
      else (case split c xs of [] \<Rightarrow> [[x]] | w # ws \<Rightarrow> (x # w) # ws))"

definition endsWith :: "string \<Rightarrow> string \<Rightarrow> bool" where
  "endsWith s suf = (length suf \<le> length s \<and> drop (length s - length suf) s = suf)"

section \<open>The metadata store\<close>

text \<open>
  Modelled from the spec: the MetadataStore (class \<^verbatim>\<open>MetaData\<close>, which the transfer
  service receives as \<^verbatim>\<open>this.metaData\<close>; its source is not among the files). The
  store indexes FileEntry objects by path and paths by identifier; a lookup answers
  with the whole entry or with nothing; \<^verbatim>\<open>incrementDownload\<close> adds one to the
  entry's \<^verbatim>\<open>downloadCount\<close> and changes nothing else. The transfer service calls
  all of them with a path, apart from \<^verbatim>\<open>getPathFromId\<close>.
\<close>

record metaData =
  ids :: "(string \<times> string) list"
  files :: "(string \<times> (string \<times> jv) list) list"

definition getPathFromId :: "metaData \<Rightarrow> string \<Rightarrow> jv" where
  "getPathFromId m i = (case map_of (ids m) i of None \<Rightarrow> JUndefined | Some p \<Rightarrow> JStr p)"

definition getData :: "metaData \<Rightarrow> jv \<Rightarrow> jv" where
  "getData m v =
     (case v of
        JStr p \<Rightarrow> (case map_of (files m) p of None \<Rightarrow> JUndefined | Some e \<Rightarrow> JObj e)
      | _ \<Rightarrow> JUndefined)"

definition hasFile :: "metaData \<Rightarrow> string \<Rightarrow> bool" where
  "hasFile m p = (map_of (files m) p \<noteq> None)"

definition bump :: "(string \<times> jv) list \<Rightarrow> (string \<times> jv) list" where
  "bump e =
     map (\<lambda>(k, v). if k = ''downloadCount''
                      then (k, case v of JNum n \<Rightarrow> JNum (n + 1) | _ \<Rightarrow> JNum 1)
                      else (k, v)) e"

definition incrementDownload :: "metaData \<Rightarrow> jv \<Rightarrow> metaData" where
  "incrementDownload m v =
     (case v of
        JStr p \<Rightarrow> m\<lparr>files := map (\<lambda>(q, e). if q = p then (q, bump e) else (q, e)) (files m)\<rparr>
      | _ \<Rightarrow> m)"

section \<open>The response object and the file system\<close>

text \<open>
  What is written to a response: the text \<^verbatim>\<open>JSON.stringify(v, null, 0)\<close> of a value,
  or bytes that the read stream of a file has delivered.
\<close>

datatype chunk = Json jv | FileBytes string

text \<open>
  Node's \<^verbatim>\<open>ServerResponse\<close>. \<^verbatim>\<open>writeHead\<close> fixes the status line and the headers;
  without it the head is built from \<^verbatim>\<open>statusCode\<close> and \<^verbatim>\<open>statusMessage\<close> when the
  response is first written or ended. An assignment to \<^verbatim>\<open>statusCode\<close> after
  \<^verbatim>\<open>writeHead\<close> does not reach the requester. The head goes to the requester with the
  first write or with the end of the response, not before.
\<close>

record response =
  statusCode :: nat
  statusMessage :: "string option"
  head :: "(nat \<times> (string \<times> string) list) option"
  body :: "chunk list"
  ended :: bool

definition fresh :: response where
  "fresh = \<lparr>statusCode = 200, statusMessage = None, head = None, body = [], ended = False\<rparr>"

definition writeHead :: "nat \<Rightarrow> (string \<times> string) list \<Rightarrow> response \<Rightarrow> response" where
  "writeHead c hs r = r\<lparr>statusCode := c, head := Some (c, hs)\<rparr>"

definition implicitHead :: "response \<Rightarrow> response" where
  "implicitHead r = (case head r of None \<Rightarrow> r\<lparr>head := Some (statusCode r, [])\<rparr> | Some h \<Rightarrow> r)"

definition res_write :: "chunk \<Rightarrow> response \<Rightarrow> response" where
  "res_write d r = (implicitHead r)\<lparr>body := body r @ [d]\<rparr>"

definition end_response :: "response \<Rightarrow> response" where
  "end_response r = (implicitHead r)\<lparr>ended := True\<rparr>"

text \<open>
  The status and the content type that reach the requester: none as long as the response
  has neither been written nor ended.
\<close>

definition sent_status :: "response \<Rightarrow> nat option" where
  "sent_status r = (if body r = [] \<and> \<not> ended r then None else map_option fst (head r))"

definition sent_header :: "response \<Rightarrow> string \<Rightarrow> string option" where
  "sent_header r k =
     (if body r = [] \<and> \<not> ended r then None
      else (case head r of None \<Rightarrow> None | Some (c, hs) \<Rightarrow> map_of hs k))"

text \<open>
  The file system and the platform, as the handlers see them: \<^verbatim>\<open>readdir\<close> answers
  with the names in a directory or fails (the promise rejects), \<^verbatim>\<open>Path.join\<close> is
  the platform's, and the read stream of a file delivers bytes and then either ends or
  emits \<^verbatim>\<open>error\<close>: with no bytes when the file cannot be opened, with some when
  reading fails on the way.
\<close>

record env =
  readdir :: "string \<Rightarrow> js_error + string list"
  join :: "string \<Rightarrow> string \<Rightarrow> string"
  read_stream :: "string \<Rightarrow> string \<times> js_error option"

text \<open>
  The promisified \<^verbatim>\<open>Fs.readdir\<close> and \<^verbatim>\<open>Fs.createReadStream\<close> refuse a path that
  is not a string with a TypeError, before they touch the disk. A read stream of a string
  path is created without touching the disk: the file is opened, and read, after the
  handler has returned.
\<close>

definition Fs_readdir :: "env \<Rightarrow> jv \<Rightarrow> js_error + string list" where
  "Fs_readdir E v =
     (case v of JStr p \<Rightarrow> readdir E p
      | _ \<Rightarrow> Inl (TypeError ''The path argument must be of type string''))"

definition Fs_createReadStream :: "jv \<Rightarrow> js_error + string" where
  "Fs_createReadStream v =
     (case v of JStr p \<Rightarrow> Inr p
      | _ \<Rightarrow> Inl (TypeError ''The path argument must be of type string''))"

section \<open>The transfer service: request handling\<close>

text \<open>What a handler does to the world outside the response, in order.\<close>

datatype effect =
    GetPathFromId string
  | GetData jv
  | HasFile string
  | IncrementDownload jv
  | Readdir jv
  | CreateReadStream jv

datatype logline =
    LogError string
  | LogInfo string
  | LogDebug string

record request =
  url :: string
  peer :: string

text \<open>
  The state a request is handled in: the response, the store, the calls made and the lines
  logged so far, the file whose read stream is piped into the response, and the error
  that nobody handles, which Node throws as an uncaught exception.
\<close>

record st =
  res :: response
  md :: metaData
  trace :: "effect list"
  logs :: "logline list"
  piping :: "string option"
  uncaught :: "js_error option"

definition did :: "effect \<Rightarrow> st \<Rightarrow> st" where
  "did e s = s\<lparr>trace := trace s @ [e]\<rparr>"

definition logger :: "logline \<Rightarrow> st \<Rightarrow> st" where
  "logger l s = s\<lparr>logs := logs s @ [l]\<rparr>"

definition on_res :: "(response \<Rightarrow> response) \<Rightarrow> st \<Rightarrow> st" where
  "on_res f s = s\<lparr>res := f (res s)\<rparr>"

text \<open>\<^verbatim>\<open>new Error(msg)\<close> with \<^verbatim>\<open>x.code = 404\<close>.\<close>

definition not_found :: "string \<Rightarrow> js_error" where
  "not_found msg = (Error msg)\<lparr>code := JNum 404\<rparr>"

text \<open>
  \<^verbatim>\<open>validateRequest\<close>: the array it stores in \<^verbatim>\<open>req.path\<close>, or the error it throws.
\<close>

definition segments :: "string \<Rightarrow> string list" where
  "segments u =
     (let path = drop 1 u;
          path = (if endsWith path ''/'' then take (length path - 1) path else path)
      in split CHR ''/'' path)"

definition validateRequest :: "request \<Rightarrow> st \<Rightarrow> (js_error + string list) \<times> st" where
  "validateRequest req s =
     (let path = segments (url req) in
      if length path > 2 \<or> (length path = 2 \<and> path ! 1 \<noteq> ''meta'')
      then (Inl (not_found ''Invalid URL''), s)
      else
        let s = did (GetPathFromId (path ! 0)) s in
        if \<not> truthy (getPathFromId (md s) (path ! 0))
        then (Inl (not_found ''Resource not found''), s)
        else (Inr path, s))"

definition json_head :: "(string \<times> string) list" where
  "json_head = [(''Content-Type'', ''application/json'')]"

definition octet_head :: "(string \<times> string) list" where
  "octet_head = [(''Content-Type'', ''application/octet-stream'')]"

text \<open>The two lines both handlers start with: the entry of the first segment.\<close>

definition lookup_entry :: "string list \<Rightarrow> st \<Rightarrow> jv \<times> st" where
  "lookup_entry path s =
     (let p = getPathFromId (md s) (path ! 0);
          s = did (GetPathFromId (path ! 0)) s;
          data = getData (md s) p;
          s = did (GetData p) s
      in (data, s))"

definition metaDataRequestHandler :: "string list \<Rightarrow> st \<Rightarrow> js_error option \<times> st" where
  "metaDataRequestHandler path s =
     (let (data, s) = lookup_entry path s;
          data = delete ''path'' (spread data);
          s = on_res (writeHead 200 json_head) s;
          s = on_res (res_write (Json (JObj data))) s;
          s = on_res end_response s
      in (None, s))"

text \<open>
  The loop over the children of a directory: a child the store has contributes its
  \<^verbatim>\<open>{ name, id }\<close>.
\<close>

fun list_children :: "string list \<Rightarrow> jv list \<Rightarrow> st \<Rightarrow> (js_error + jv list) \<times> st" where
  "list_children [] listing s = (Inr listing, s)"
| "list_children (child # children) listing s =
     (let s = did (HasFile child) s in
      if hasFile (md s) child
      then
        let chdata = getData (md s) (JStr child);
            s = did (GetData (JStr child)) s
        in (case member chdata ''name'' of
              Inl err \<Rightarrow> (Inl err, s)
            | Inr name \<Rightarrow>
                (case member chdata ''id'' of
                   Inl err \<Rightarrow> (Inl err, s)
                 | Inr i \<Rightarrow>
                     list_children children (listing @ [JObj [(''name'', name), (''id'', i)]]) s))
      else list_children children listing s)"

definition fileRequestHandler :: "env \<Rightarrow> string list \<Rightarrow> st \<Rightarrow> js_error option \<times> st" where
  "fileRequestHandler E path s =
     (let (data, s) = lookup_entry path s in
      case member data ''path'' of
        Inl err \<Rightarrow> (Some err, s)
      | Inr p \<Rightarrow>
          (case member data ''type'' of
             Inl err \<Rightarrow> (Some err, s)
           | Inr t \<Rightarrow>
               if t = JStr ''dir''
               then
                 (let s = did (Readdir p) s in
                  case Fs_readdir E p of
                    Inl err \<Rightarrow> (Some err, s)
                  | Inr children \<Rightarrow>
                      (case p of
                         JStr dir \<Rightarrow>
                           (case list_children (map (join E dir) children) [] s of
                              (Inl err, s) \<Rightarrow> (Some err, s)
                            | (Inr listing, s) \<Rightarrow>
                                (let response = JObj [(''id'', JStr (path ! 0)),
                                                      (''children'', JArr listing)];
                                     s = on_res (writeHead 200 json_head) s;
                                     s = on_res (res_write (Json response)) s;
                                     s = on_res end_response s
                                 in (None, s)))
                       | _ \<Rightarrow> (Some (TypeError ''The path argument must be of type string''), s)))
               else
                 (let s = on_res (writeHead 200 octet_head) s;
                      s = did (CreateReadStream p) s
                  in case Fs_createReadStream p of
                       Inl err \<Rightarrow> (Some err, s)
                     | Inr file \<Rightarrow>
                         (let s = s\<lparr>piping := Some file\<rparr>;
                              s = did (IncrementDownload p) s;
                              s = s\<lparr>md := incrementDownload (md s) p\<rparr>
                          in (None, s)))))"

text \<open>The \<^verbatim>\<open>catch\<close> block of \<^verbatim>\<open>rootHandler\<close>.\<close>

definition catch :: "js_error \<Rightarrow> st \<Rightarrow> st" where
  "catch err s =
     (let s = (if code err = JNum 404
               then on_res (\<lambda>r. r\<lparr>statusCode := 404, statusMessage := Some (toString err)\<rparr>) s
               else
                 (let s = logger (LogError (''HTTPService: '' @ toString err)) s;
                      s = logger (LogDebug (''HTTPService: stack of '' @ toString err)) s
                  in on_res (\<lambda>r. r\<lparr>statusCode := 500\<rparr>) s))
      in on_res end_response s)"

text \<open>The line every request is logged with.\<close>

definition request_line :: "request \<Rightarrow> logline" where
  "request_line req = LogInfo (''HTTPService: Request at '' @ url req @ '' from '' @ peer req)"

text \<open>The \<^verbatim>\<open>try\<close> block of \<^verbatim>\<open>rootHandler\<close>: the error it throws, if any.\<close>

definition try_block :: "env \<Rightarrow> request \<Rightarrow> st \<Rightarrow> js_error option \<times> st" where
  "try_block E req s =
     (let s = logger (request_line req) s
      in case validateRequest req s of
           (Inl err, s) \<Rightarrow> (Some err, s)
         | (Inr path, s) \<Rightarrow>
             if length path = 2 then metaDataRequestHandler path s
             else fileRequestHandler E path s)"

definition rootHandler :: "env \<Rightarrow> request \<Rightarrow> st \<Rightarrow> st" where
  "rootHandler E req s =
     (case try_block E req s of
        (Some err, s) \<Rightarrow> catch err s
      | (None, s) \<Rightarrow> s)"

text \<open>
  What \<^verbatim>\<open>fileStream.pipe(res)\<close> leads to once the handler has returned: the bytes
  that the stream delivers are written to the response, and the end of the stream ends
  the response. The stream has no listener for \<^verbatim>\<open>error\<close>, neither the handler nor
  \<^verbatim>\<open>pipe\<close> registers one: when it emits one, nobody handles the error and the response
  is left as it is.
\<close>

definition stream_events :: "env \<Rightarrow> st \<Rightarrow> st" where
  "stream_events E s =
     (case piping s of
        None \<Rightarrow> s
      | Some file \<Rightarrow>
          (let (bytes, failure) = read_stream E file;
               s = (if bytes = [] then s else on_res (res_write (FileBytes bytes)) s)
           in case failure of
                None \<Rightarrow> on_res end_response s
              | Some err \<Rightarrow> s\<lparr>uncaught := Some err\<rparr>))"

text \<open>
  A request arrives at a service whose store is \<open>m\<close>: the response is fresh, the
  handler runs, and then the read stream it may have piped.
\<close>

definition arrival :: "metaData \<Rightarrow> st" where
  "arrival m = \<lparr>res = fresh, md = m, trace = [], logs = [], piping = None, uncaught = None\<rparr>"

definition serve :: "env \<Rightarrow> metaData \<Rightarrow> request \<Rightarrow> st" where
  "serve E m req = stream_events E (rootHandler E req (arrival m))"

subsection \<open>Notions the properties are stated with\<close>

text \<open>The two request shapes: one segment, or two segments of which the second is \<open>meta\<close>.\<close>

definition valid_shape :: "string list \<Rightarrow> bool" where
  "valid_shape path = (length path = 1 \<or> (length path = 2 \<and> path ! 1 = ''meta''))"

fun is_increment :: "effect \<Rightarrow> bool" where
  "is_increment (IncrementDownload v) = True"
| "is_increment e = False"

fun succeeded :: "'e + 'a \<Rightarrow> bool" where
  "succeeded (Inl e) = False"
| "succeeded (Inr x) = True"

text \<open>
  The \<^verbatim>\<open>path\<close> of the entry that \<^verbatim>\<open>getData\<close> has for \<open>v\<close>; and whether a read
  stream is created for it: the entry is not a directory and \<^verbatim>\<open>createReadStream\<close>
  accepts its path.
\<close>

definition entry_path :: "metaData \<Rightarrow> jv \<Rightarrow> jv" where
  "entry_path m v = (case getData m v of JObj e \<Rightarrow> field e ''path'' | _ \<Rightarrow> JUndefined)"

definition stream_created :: "metaData \<Rightarrow> jv \<Rightarrow> bool" where
  "stream_created m v =
     (case getData m v of
        JObj e \<Rightarrow> field e ''type'' \<noteq> JStr ''dir'' \<and> succeeded (Fs_createReadStream (field e ''path''))
      | _ \<Rightarrow> False)"

text \<open>
  A content request for a file: one segment, which the store resolves, to an entry for
  which a read stream is created; and the path that is fetched.
\<close>

definition file_fetch :: "metaData \<Rightarrow> request \<Rightarrow> bool" where
  "file_fetch m req =
     (let path = segments (url req) in
      length path = 1 \<and> truthy (getPathFromId m (path ! 0)) \<and>
      stream_created m (getPathFromId m (path ! 0)))"

definition fetched :: "metaData \<Rightarrow> request \<Rightarrow> jv" where
  "fetched m req = entry_path m (getPathFromId m (segments (url req) ! 0))"

text \<open>
  The \<^verbatim>\<open>{ name, id }\<close> of a child the store has, and the store calls the listing
  makes for a child.
\<close>

definition name_and_id :: "metaData \<Rightarrow> string \<Rightarrow> jv" where
  "name_and_id m c =
     (case getData m (JStr c) of
        JObj e \<Rightarrow> JObj [(''name'', field e ''name''), (''id'', field e ''id'')]
      | _ \<Rightarrow> JUndefined)"

definition child_reads :: "metaData \<Rightarrow> string \<Rightarrow> effect list" where
  "child_reads m c = (if hasFile m c then [HasFile c, GetData (JStr c)] else [HasFile c])"

text \<open>
  Two entries that differ in \<^verbatim>\<open>downloadCount\<close> at most, and two stores that differ
  in the \<^verbatim>\<open>downloadCount\<close> of the entry at \<open>p\<close> at most.
\<close>

definition same_but_count :: "(string \<times> jv) list \<Rightarrow> (string \<times> jv) list \<Rightarrow> bool" where
  "same_but_count e e' = (delete ''downloadCount'' e' = delete ''downloadCount'' e
                          \<and> map fst e' = map fst e)"

definition same_but_count_at :: "string \<Rightarrow> metaData \<Rightarrow> metaData \<Rightarrow> bool" where
  "same_but_count_at p m m' =
     (ids m' = ids m \<and>
      list_all2 (\<lambda>(q, e) (q', e'). q' = q \<and> (if q = p then same_but_count e e' else e' = e))
        (files m) (files m'))"

subsection \<open>A shared directory, to run the handlers on\<close>

definition share :: metaData where
  "share =
     \<lparr>ids = [(''d1'', ''/srv/share''), (''f1'', ''/srv/share/a.txt''), (''d2'', ''/srv/gone''),
             (''f2'', ''/srv/share/old.txt'')],
      files =
        [(''/srv/share'',
          [(''id'', JStr ''d1''), (''path'', JStr ''/srv/share''), (''name'', JStr ''share''),
           (''type'', JStr ''dir''), (''downloadCount'', JNum 0)]),
         (''/srv/share/a.txt'',
          [(''id'', JStr ''f1''), (''path'', JStr ''/srv/share/a.txt''), (''name'', JStr ''a.txt''),
           (''type'', JStr ''file''), (''downloadCount'', JNum 2)]),
         (''/srv/gone'',
          [(''id'', JStr ''d2''), (''path'', JStr ''/srv/gone''), (''name'', JStr ''gone''),
           (''type'', JStr ''dir''), (''downloadCount'', JNum 0)]),
         (''/srv/share/old.txt'',
          [(''id'', JStr ''f2''), (''path'', JStr ''/srv/share/old.txt''), (''name'', JStr ''old.txt''),
           (''type'', JStr ''file''), (''downloadCount'', JNum 0)])]\<rparr>"

text \<open>
  The disk under it: the directory \<^verbatim>\<open>/srv/share\<close> holds the shared \<^verbatim>\<open>a.txt\<close> and an
  unshared \<^verbatim>\<open>b.txt\<close>; the shared directory \<^verbatim>\<open>/srv/gone\<close> and the shared file
  \<^verbatim>\<open>old.txt\<close> have been removed since the store was built.
\<close>

definition ENOENT :: "string \<Rightarrow> js_error" where
  "ENOENT p = (Error (''ENOENT: no such file or directory, '' @ p))\<lparr>code := JStr ''ENOENT''\<rparr>"

definition disk :: env where
  "disk =
     \<lparr>readdir = (\<lambda>p. if p = ''/srv/share'' then Inr [''a.txt'', ''b.txt''] else Inl (ENOENT p)),
      join = (\<lambda>p c. p @ ''/'' @ c),
      read_stream = (\<lambda>p. if p = ''/srv/share/a.txt'' then (''hello'', None)
                         else ([], Some (ENOENT p)))\<rparr>"

definition get :: "string \<Rightarrow> request" where
  "get u = \<lparr>url = u, peer = ''192.168.1.7:51200''\<rparr>"

section \<open>The transfer service: life cycle\<close>

text \<open>
  What the constructor is handed as \<^verbatim>\<open>metaData\<close>: a store, or any other JavaScript
  value. A store is an object, hence truthy.
\<close>

datatype store_arg = Store metaData | Other jv

fun given :: "store_arg \<Rightarrow> bool" where
  "given (Store m) = True"
| "given (Other v) = truthy v"

text \<open>
  The service and Node's \<^verbatim>\<open>http.Server\<close> it owns: whether the listener is bound,
  and how many connections the server waits for before it emits \<^verbatim>\<open>close\<close> (those
  with a request in flight; the idle ones too where the runtime does not close them). A
  server that was asked to close is closed once it no longer listens and has no such
  connection left.
\<close>

record service =
  svc_metaData :: store_arg
  svc_port :: jv
  listening :: bool
  connections :: nat


definition HTTPService :: "store_arg \<Rightarrow> jv \<Rightarrow> logline list \<Rightarrow> (js_error + service) \<times> logline list" where
  "HTTPService metaData port lg =
     (if \<not> given metaData
      then (Inl (Error ''MetaData object not passed to HTTPService.''),
            lg @ [LogError ''MetaData object not passed to HTTPService.''])
      else if \<not> truthy port
      then (Inl (Error ''Port not passed to HTTPService.''),
            lg @ [LogError ''Port not passed to HTTPService.''])
      else (Inr \<lparr>svc_metaData = metaData, svc_port = port, listening = False, connections = 0\<rparr>,
            lg))"

text \<open>
  What \<^verbatim>\<open>server.listen(port)\<close> leads to: the listener is bound and the server emits
  \<^verbatim>\<open>listening\<close>; or binding fails (the port is in use) and the server emits
  \<^verbatim>\<open>error\<close>; or \<^verbatim>\<open>listen\<close> itself throws, as it does for a port out of range.
\<close>

datatype listen_outcome = Bound string | BindError js_error | ListenThrows js_error

text \<open>
  \<^verbatim>\<open>start\<close>, with the listeners the constructor registered for \<^verbatim>\<open>listening\<close> and
  \<^verbatim>\<open>error\<close>. The result is the error thrown to the caller, if any.
\<close>

definition start :: "listen_outcome \<Rightarrow> service \<Rightarrow> logline list \<Rightarrow> js_error option \<times> service \<times> logline list" where
  "start out svc lg =
     (let lg = lg @ [LogDebug ''HTTPService: Start function called''] in
      case out of
        Bound addr \<Rightarrow>
          (None, svc\<lparr>listening := True\<rparr>, lg @ [LogInfo (''HTTPService: listening on '' @ addr)])
      | BindError err \<Rightarrow>
          (None, svc, lg @ [LogError (''UDPService: '' @ toString err),
                            LogDebug (''UDPService: stack of '' @ toString err)])
      | ListenThrows err \<Rightarrow> (Some err, svc, lg))"

text \<open>
  A value handed to \<^verbatim>\<open>Promise.all\<close>: a promise, which settles after some time, or any
  other value, which counts as fulfilled at once.
\<close>

datatype outcome = Fulfilled | Rejected

datatype signal = Plain jv | Promise nat outcome

fun settles_at :: "signal \<Rightarrow> nat" where
  "settles_at (Plain v) = 0"
| "settles_at (Promise t r) = t"

fun rejects :: "signal \<Rightarrow> bool" where
  "rejects (Plain v) = False"
| "rejects (Promise t r) = (r = Rejected)"


section \<open>The owning process: restarting the server\<close>

text \<open>
  \<^verbatim>\<open>Promise.all\<close>: rejected as soon as one of the promises is, fulfilled when all of
  them are; the time at which it settles, and how.
\<close>

definition Promise_all :: "signal list \<Rightarrow> nat \<times> outcome" where
  "Promise_all ps =
     (case filter rejects ps of
        [] \<Rightarrow> (fold max (map settles_at ps) 0, Fulfilled)
      | r # rs \<Rightarrow> (fold min (map settles_at rs) (settles_at r), Rejected))"




text \<open>
  The orchestrator (class \<^verbatim>\<open>Server\<close>) is not among the files: what its \<^verbatim>\<open>stop\<close>
  returns, whether its constructor and its \<^verbatim>\<open>start\<close> throw, are parameters.
\<close>

record 'srv orchestrator =
  stop_signals :: "'srv \<Rightarrow> signal list"
  construct :: "(string \<times> jv) list \<Rightarrow> js_error + 'srv"
  start_throws :: "'srv \<Rightarrow> js_error option"

datatype main_event =
    StopRequested
  | LoggedError
  | Constructed "(string \<times> jv) list"
  | Started
  | SentServerError js_error

text \<open>
  \<^verbatim>\<open>createServer\<close>: the new value of the global \<^verbatim>\<open>server\<close>, and what happens when,
  counted from the call.
\<close>

definition createServer ::
  "'srv orchestrator \<Rightarrow> (string \<times> jv) list \<Rightarrow> 'srv option \<Rightarrow> 'srv option \<times> (nat \<times> main_event) list" where
  "createServer S config server =
     (let promises = (case server of None \<Rightarrow> [] | Some s \<Rightarrow> stop_signals S s);
          stopping = (case server of None \<Rightarrow> [] | Some s \<Rightarrow> [(0, StopRequested)]);
          (t, r) = Promise_all promises;
          caught = (if r = Rejected then [(t, LoggedError)] else [])
      in case construct S config of
           Inl err \<Rightarrow> (server, stopping @ caught @ [(t, SentServerError err)])
         | Inr s \<Rightarrow>
             (Some s, stopping @ caught @ [(t, Constructed config)] @
                (case start_throws S s of
                   None \<Rightarrow> [(t, Started)]
                 | Some err \<Rightarrow> [(t, SentServerError err)])))"

text \<open>\<^verbatim>\<open>Object.assign(config, update)\<close>: the properties of the update win.\<close>

definition Object_assign :: "(string \<times> jv) list \<Rightarrow> (string \<times> jv) list \<Rightarrow> (string \<times> jv) list" where
  "Object_assign config update =
     fold (\<lambda>(k, v) c. if k \<in> set (map fst c)
                        then map (\<lambda>(k', v'). if k' = k then (k', v) else (k', v')) c
                        else c @ [(k, v)]) update config"

text \<open>
  The handler of a configuration update: it restarts the server once the configuration
  has been written, and does nothing when writing fails.
\<close>

definition config_update ::
  "'srv orchestrator \<Rightarrow> bool \<Rightarrow> (string \<times> jv) list \<Rightarrow> (string \<times> jv) list \<Rightarrow> 'srv option
     \<Rightarrow> (string \<times> jv) list \<times> 'srv option \<times> (nat \<times> main_event) list" where
  "config_update S written config update server =
     (let config = Object_assign config update in
      if written
      then (let (server, events) = createServer S config server in (config, server, events))
      else (config, server, []))"

text \<open>
  An orchestrator whose discovery service fails to stop after one tick while its other
  stop signal takes five, and one whose two signals are fulfilled after two and five.
\<close>

definition hasty :: "unit orchestrator" where
  "hasty = \<lparr>stop_signals = (\<lambda>s. [Promise 1 Rejected, Promise 5 Fulfilled]),
            construct = (\<lambda>c. Inr ()), start_throws = (\<lambda>s. None)\<rparr>"

definition orderly :: "unit orchestrator" where
  "orderly = \<lparr>stop_signals = (\<lambda>s. [Promise 2 Fulfilled, Promise 5 Fulfilled]),
              construct = (\<lambda>c. Inr ()), start_throws = (\<lambda>s. None)\<rparr>"


section \<open>Properties of request validation\<close>

lemma split_not_Nil: "split c s \<noteq> []"
  by (induction s) (auto split: list.splits)

lemma split_no_separator: "c \<notin> set a \<Longrightarrow> split c a = [a]"
  by (induction a) auto

lemma split_at_separator: "c \<notin> set a \<Longrightarrow> split c (a @ c # b) = a # split c b"
  by (induction a) auto

lemma length_segments: "length (segments u) \<noteq> 0"
  by (simp add: segments_def Let_def split_not_Nil)

lemma segments_meta:
  assumes "CHR ''/'' \<notin> set i"
  shows "segments (''/'' @ i @ ''/meta'') = [i, ''meta'']"
proof -
  have "\<not> endsWith (i @ ''/meta'') ''/''"
    by (simp add: endsWith_def)
  moreover have "split CHR ''/'' (i @ CHR ''/'' # ''meta'') = i # split CHR ''/'' ''meta''"
    using assms by (rule split_at_separator)
  ultimately show ?thesis
    by (simp add: segments_def)
qed

lemma segments_id:
  assumes "CHR ''/'' \<notin> set i"
  shows "segments (''/'' @ i) = [i]"
proof -
  have "\<not> endsWith i ''/''"
    using assms by (cases i rule: rev_cases) (auto simp: endsWith_def)
  then show ?thesis
    using assms by (simp add: segments_def split_no_separator)
qed

lemma validateRequest_accepts:
  assumes "valid_shape (segments (url req))"
    and "truthy (getPathFromId (md s) (segments (url req) ! 0))"
  shows "validateRequest req s =
           (Inr (segments (url req)), did (GetPathFromId (segments (url req) ! 0)) s)"
  using assms by (auto simp add: validateRequest_def valid_shape_def Let_def did_def)

lemma lookup_entry_eq:
  "lookup_entry path s =
     (getData (md s) (getPathFromId (md s) (path ! 0)),
      s\<lparr>trace := trace s @ [GetPathFromId (path ! 0), GetData (getPathFromId (md s) (path ! 0))]\<rparr>)"
  by (simp add: lookup_entry_def Let_def did_def)

lemma list_children_eq:
  "list_children cs listing s =
     (Inr (listing @ map (name_and_id (md s)) (filter (hasFile (md s)) cs)),
      s\<lparr>trace := trace s @ concat (map (child_reads (md s)) cs)\<rparr>)"
proof (induction cs arbitrary: listing s)
  case Nil
  then show ?case by simp
next
  case (Cons c cs)
  show ?case
  proof (cases "map_of (files (md s)) c")
    case None
    then show ?thesis
      by (simp add: Cons.IH hasFile_def did_def child_reads_def)
  next
    case (Some e)
    then show ?thesis
      by (simp add: Cons.IH hasFile_def did_def name_and_id_def child_reads_def getData_def)
  qed
qed

lemma validateRequest_rejects:
  assumes "\<not> valid_shape (segments (url req))
           \<or> \<not> truthy (getPathFromId (md s) (segments (url req) ! 0))"
  shows "\<exists>err s'. validateRequest req s = (Inl err, s') \<and> code err = JNum 404
           \<and> (s' = s \<or> s' = did (GetPathFromId (segments (url req) ! 0)) s)"
proof (cases "length (segments (url req)) > 2
              \<or> (length (segments (url req)) = 2 \<and> segments (url req) ! 1 \<noteq> ''meta'')")
  case True
  then have "validateRequest req s = (Inl (not_found ''Invalid URL''), s)"
    by (simp add: validateRequest_def Let_def)
  then show ?thesis by (simp add: not_found_def)
next
  case False
  with length_segments [of "url req"] have "valid_shape (segments (url req))"
    unfolding valid_shape_def by arith
  with assms have u: "\<not> truthy (getPathFromId (md s) (segments (url req) ! 0))" by simp
  have "validateRequest req s =
          (Inl (not_found ''Resource not found''), did (GetPathFromId (segments (url req) ! 0)) s)"
    using False u by (auto simp add: validateRequest_def Let_def did_def)
  then show ?thesis by (simp add: not_found_def)
qed

lemma catch_404:
  "code err = JNum 404 \<Longrightarrow> head (res s) = None \<Longrightarrow>
   catch err s = s\<lparr>res := (res s)\<lparr>statusCode := 404, statusMessage := Some (toString err),
                                   head := Some (404, []), ended := True\<rparr>\<rparr>"
  by (simp add: catch_def on_res_def end_response_def implicitHead_def)

lemma catch_keeps:
  "trace (catch err s) = trace s" "md (catch err s) = md s" "piping (catch err s) = piping s"
  by (simp_all add: catch_def on_res_def logger_def Let_def)

lemma stream_events_keeps:
  "md (stream_events E s) = md s" "trace (stream_events E s) = trace s"
  "logs (stream_events E s) = logs s"
  by (simp_all add: stream_events_def on_res_def Let_def split: option.splits prod.splits)

lemma stream_events_idle: "piping s = None \<Longrightarrow> stream_events E s = s"
  by (simp add: stream_events_def)

lemma rootHandler_keeps:
  "trace (rootHandler E req s) = trace (snd (try_block E req s))"
  "md (rootHandler E req s) = md (snd (try_block E req s))"
  by (auto simp: rootHandler_def catch_keeps split: prod.splits option.splits)

lemma accepted_request:
  assumes "valid_shape (segments (url req))"
    and "truthy (getPathFromId m (segments (url req) ! 0))"
  shows "try_block E req (arrival m) =
     (if length (segments (url req)) = 2
      then metaDataRequestHandler (segments (url req))
             (did (GetPathFromId (segments (url req) ! 0)) (logger (request_line req) (arrival m)))
      else fileRequestHandler E (segments (url req))
             (did (GetPathFromId (segments (url req) ! 0)) (logger (request_line req) (arrival m))))"
proof -
  have "md (logger (request_line req) (arrival m)) = m"
    by (simp add: logger_def arrival_def)
  with assms show ?thesis
    using validateRequest_accepts [of req "logger (request_line req) (arrival m)"]
    by (simp add: try_block_def)
qed

lemma child_reads_no_increment:
  "filter is_increment (concat (map (child_reads m \<circ> f) cs)) = []"
  by (induction cs) (simp_all add: child_reads_def)

lemma metaDataRequestHandler_store:
  "md (snd (metaDataRequestHandler path s)) = md s"
  "filter is_increment (trace (snd (metaDataRequestHandler path s))) = filter is_increment (trace s)"
  "fst (metaDataRequestHandler path s) = None"
  by (simp_all add: metaDataRequestHandler_def lookup_entry_eq Let_def on_res_def)

lemma getData_shape: "getData m v = JUndefined \<or> (\<exists>e. getData m v = JObj e)"
  by (simp add: getData_def split: jv.splits option.splits)

lemma getData_cases:
  obtains (none) "getData m v = JUndefined" | (entry) e where "getData m v = JObj e"
  using getData_shape [of m v] by blast

lemma fileRequestHandler_store:
  "md (snd (fileRequestHandler E path s)) =
     (if stream_created (md s) (getPathFromId (md s) (path ! 0))
      then incrementDownload (md s) (entry_path (md s) (getPathFromId (md s) (path ! 0)))
      else md s)"
proof (cases "md s" "getPathFromId (md s) (path ! 0)" rule: getData_cases)
  case none
  then show ?thesis
    by (simp add: fileRequestHandler_def lookup_entry_eq stream_created_def)
next
  case (entry e)
  then show ?thesis
    by (auto simp add: fileRequestHandler_def lookup_entry_eq list_children_eq stream_created_def entry_path_def
        Let_def did_def on_res_def Fs_readdir_def Fs_createReadStream_def
        split: sum.splits jv.splits prod.splits)
qed

lemma fileRequestHandler_increments:
  "filter is_increment (trace (snd (fileRequestHandler E path s))) =
     filter is_increment (trace s) @
     (if stream_created (md s) (getPathFromId (md s) (path ! 0))
      then [IncrementDownload (entry_path (md s) (getPathFromId (md s) (path ! 0)))]
      else [])"
proof (cases "md s" "getPathFromId (md s) (path ! 0)" rule: getData_cases)
  case none
  then show ?thesis
    by (simp add: fileRequestHandler_def lookup_entry_eq stream_created_def)
next
  case (entry e)
  then show ?thesis
    by (auto simp add: fileRequestHandler_def lookup_entry_eq list_children_eq stream_created_def entry_path_def
        Let_def did_def on_res_def Fs_readdir_def Fs_createReadStream_def child_reads_no_increment
        split: sum.splits jv.splits prod.splits)
qed

lemma rejected_request:
  assumes "\<not> valid_shape (segments (url req))
           \<or> \<not> truthy (getPathFromId m (segments (url req) ! 0))"
  shows "\<exists>err s'. try_block E req (arrival m) = (Some err, s') \<and> code err = JNum 404
           \<and> res s' = fresh \<and> md s' = m \<and> piping s' = None
           \<and> (trace s' = [] \<or> trace s' = [GetPathFromId (segments (url req) ! 0)])"
proof -
  define s where "s = logger (request_line req) (arrival m)"
  have s0: "res s = fresh" "md s = m" "trace s = []" "piping s = None"
    by (simp_all add: s_def logger_def arrival_def)
  from assms s0 obtain err s' where v: "validateRequest req s = (Inl err, s')"
    and c: "code err = JNum 404"
    and s': "s' = s \<or> s' = did (GetPathFromId (segments (url req) ! 0)) s"
    using validateRequest_rejects [of req s] by auto
  have "res s' = fresh" "md s' = m" "piping s' = None"
    "trace s' = [] \<or> trace s' = [GetPathFromId (segments (url req) ! 0)]"
    using s' s0 by (auto simp: did_def)
  moreover have "try_block E req (arrival m) = (Some err, s')"
    using v by (simp add: try_block_def s_def)
  ultimately show ?thesis
    using c by blast
qed

lemma serve_store_and_increments:
  "md (serve E m req) = (if file_fetch m req then incrementDownload m (fetched m req) else m)
   \<and> filter is_increment (trace (serve E m req)) =
       (if file_fetch m req then [IncrementDownload (fetched m req)] else [])"
proof (cases "valid_shape (segments (url req)) \<and> truthy (getPathFromId m (segments (url req) ! 0))")
  case False
  then obtain err s' where "try_block E req (arrival m) = (Some err, s')" "md s' = m"
    "trace s' = [] \<or> trace s' = [GetPathFromId (segments (url req) ! 0)]"
    using rejected_request [of req m E] by blast
  moreover have "\<not> file_fetch m req"
    using False by (auto simp: file_fetch_def valid_shape_def Let_def)
  ultimately show ?thesis
    by (auto simp: serve_def stream_events_keeps rootHandler_keeps)
next
  case True
  define s where "s = did (GetPathFromId (segments (url req) ! 0)) (logger (request_line req) (arrival m))"
  have s0: "md s = m" "trace s = [GetPathFromId (segments (url req) ! 0)]"
    by (simp_all add: s_def logger_def arrival_def did_def)
  show ?thesis
  proof (cases "length (segments (url req)) = 2")
    case two: True
    then have "try_block E req (arrival m) = metaDataRequestHandler (segments (url req)) s"
      using accepted_request [of req m E] True by (simp add: s_def)
    moreover have "\<not> file_fetch m req"
      using two by (simp add: file_fetch_def Let_def)
    ultimately show ?thesis
      using s0 by (simp add: serve_def stream_events_keeps rootHandler_keeps
          metaDataRequestHandler_store)
  next
    case one: False
    then have "try_block E req (arrival m) = fileRequestHandler E (segments (url req)) s"
      using accepted_request [of req m E] True by (simp add: s_def)
    moreover have "file_fetch m req = stream_created m (getPathFromId m (segments (url req) ! 0))"
      using one True by (auto simp: file_fetch_def valid_shape_def Let_def)
    ultimately show ?thesis
      using s0 by (simp add: serve_def stream_events_keeps rootHandler_keeps
          fileRequestHandler_store fileRequestHandler_increments fetched_def)
  qed
qed

lemma bump_same_but_count: "same_but_count e (bump e)"
  by (induction e) (auto simp: same_but_count_def bump_def delete_def)

lemma incrementDownload_frame: "same_but_count_at p m (incrementDownload m (JStr p))"
proof -
  have "list_all2 (\<lambda>(q, e) (q', e'). q' = q \<and> (if q = p then same_but_count e e' else e' = e))
          fs (map (\<lambda>(q, e). if q = p then (q, bump e) else (q, e)) fs)" for fs
    by (induction fs) (auto simp: bump_same_but_count)
  then show ?thesis
    by (simp add: same_but_count_at_def incrementDownload_def)
qed

lemma file_fetch_string_path:
  "file_fetch m req \<Longrightarrow> \<exists>p. fetched m req = JStr p"
  by (auto simp: file_fetch_def fetched_def stream_created_def entry_path_def Let_def
      Fs_createReadStream_def split: jv.splits)

lemma fileRequestHandler_file:
  assumes "getData (md s) (getPathFromId (md s) (path ! 0)) = JObj e"
    and "field e ''type'' \<noteq> JStr ''dir''" and "field e ''path'' = JStr p"
  shows "fileRequestHandler E path s =
     (None, s\<lparr>res := writeHead 200 octet_head (res s),
               trace := trace s @ [GetPathFromId (path ! 0), GetData (getPathFromId (md s) (path ! 0)),
                                   CreateReadStream (JStr p), IncrementDownload (JStr p)],
               md := incrementDownload (md s) (JStr p),
               piping := Some p\<rparr>)"
  using assms
  by (simp add: fileRequestHandler_def lookup_entry_eq Let_def did_def on_res_def
      Fs_createReadStream_def)

lemma file_fetch_entry:
  assumes "file_fetch m req"
  shows "\<exists>e p. valid_shape (segments (url req)) \<and> length (segments (url req)) \<noteq> 2
           \<and> truthy (getPathFromId m (segments (url req) ! 0))
           \<and> getData m (getPathFromId m (segments (url req) ! 0)) = JObj e
           \<and> field e ''type'' \<noteq> JStr ''dir'' \<and> field e ''path'' = JStr p
           \<and> fetched m req = JStr p"
  using assms
  by (auto simp: file_fetch_def fetched_def stream_created_def entry_path_def valid_shape_def
      Let_def Fs_createReadStream_def split: jv.splits)

lemma file_fetch_outcome:
  assumes "file_fetch m req"
  shows "\<exists>p. fetched m req = JStr p
           \<and> uncaught (serve E m req) = snd (read_stream E p)
           \<and> ended (res (serve E m req)) = (snd (read_stream E p) = None)"
proof -
  define s where "s = did (GetPathFromId (segments (url req) ! 0)) (logger (request_line req) (arrival m))"
  have s0: "md s = m" "res s = fresh" "uncaught s = None"
    by (simp_all add: s_def logger_def arrival_def did_def)
  from assms obtain e p where v: "valid_shape (segments (url req))"
    and l: "length (segments (url req)) \<noteq> 2"
    and t: "truthy (getPathFromId m (segments (url req) ! 0))"
    and d: "getData m (getPathFromId m (segments (url req) ! 0)) = JObj e"
    and k: "field e ''type'' \<noteq> JStr ''dir''" and f: "field e ''path'' = JStr p"
    and p: "fetched m req = JStr p"
    using file_fetch_entry by blast
  have "try_block E req (arrival m) = fileRequestHandler E (segments (url req)) s"
    using accepted_request [OF v t, of E] l by (simp add: s_def)
  then have "rootHandler E req (arrival m) =
      s\<lparr>res := writeHead 200 octet_head (res s),
        trace := trace s @ [GetPathFromId (segments (url req) ! 0),
                            GetData (getPathFromId (md s) (segments (url req) ! 0)),
                            CreateReadStream (JStr p), IncrementDownload (JStr p)],
        md := incrementDownload (md s) (JStr p),
        piping := Some p\<rparr>"
    using fileRequestHandler_file [of s "segments (url req)" e p E] d k f s0
    by (simp add: rootHandler_def)
  then have "uncaught (serve E m req) = snd (read_stream E p)"
    and "ended (res (serve E m req)) = (snd (read_stream E p) = None)"
    using s0
    by (auto simp: serve_def stream_events_def Let_def on_res_def res_write_def end_response_def
        implicitHead_def writeHead_def fresh_def split: prod.splits option.splits)
  with p show ?thesis
    by simp
qed

lemma ENOENT_code: "code (ENOENT p) = JStr ''ENOENT''"
  by (simp add: ENOENT_def)

lemma serve_f2:
  "serve disk share (get ''/f2'') =
     (arrival share)\<lparr>res := writeHead 200 octet_head fresh,
       md := incrementDownload share (JStr ''/srv/share/old.txt''),
       trace := [GetPathFromId ''f2'', GetPathFromId ''f2'', GetData (JStr ''/srv/share/old.txt''),
                 CreateReadStream (JStr ''/srv/share/old.txt''),
                 IncrementDownload (JStr ''/srv/share/old.txt'')],
       logs := [request_line (get ''/f2'')],
       piping := Some ''/srv/share/old.txt'',
       uncaught := Some (ENOENT ''/srv/share/old.txt'')\<rparr>"
  by (simp add: serve_def stream_events_def rootHandler_def try_block_def validateRequest_def
      segments_def endsWith_def get_def getPathFromId_def share_def did_def logger_def
      arrival_def fileRequestHandler_def lookup_entry_def getData_def field_def
      Fs_createReadStream_def disk_def Let_def on_res_def)

text \<open>
  Claim C1. A request whose path has neither of the two shapes, or whose first segment
  the store does not resolve, is answered with status 404 and an empty body; the only
  call to the store is the lookup of the first segment in \<^verbatim>\<open>validateRequest\<close>, no
  entry is read and the store is as it was.
\<close>

theorem unresolvable_request_is_404:
  assumes "\<not> valid_shape (segments (url req))
           \<or> \<not> truthy (getPathFromId m (segments (url req) ! 0))"
  shows "sent_status (res (serve E m req)) = Some 404
         \<and> ended (res (serve E m req))
         \<and> body (res (serve E m req)) = []
         \<and> set (trace (serve E m req)) \<subseteq> {GetPathFromId (segments (url req) ! 0)}
         \<and> md (serve E m req) = m"
proof -
  define s where "s = logger (request_line req) (arrival m)"
  have s0: "res s = fresh" "md s = m" "trace s = []" "piping s = None"
    by (simp_all add: s_def logger_def arrival_def)
  from assms s0 obtain err s' where v: "validateRequest req s = (Inl err, s')"
    and c: "code err = JNum 404"
    and s': "s' = s \<or> s' = did (GetPathFromId (segments (url req) ! 0)) s"
    using validateRequest_rejects [of req s] by auto
  have h: "head (res s') = None"
    and t: "set (trace s') \<subseteq> {GetPathFromId (segments (url req) ! 0)}"
    and m: "md s' = m" and b: "body (res s') = []" and i: "piping s' = None"
    using s' s0 by (auto simp: did_def fresh_def)
  have "rootHandler E req (arrival m) = catch err s'"
    using v by (simp add: rootHandler_def try_block_def s_def)
  then have "serve E m req = catch err s'"
    using i by (simp add: serve_def stream_events_idle catch_keeps)
  then show ?thesis
    using catch_404 [OF c h] t m b by (simp add: sent_status_def)
qed

text \<open>Three segments, the empty path, and an identifier the store does not have.\<close>

theorem unresolvable_request_is_404_witness:
  "(\<not> valid_shape (segments ''/a/b/c'')
    \<and> sent_status (res (serve disk share (get ''/a/b/c''))) = Some 404)
   \<and> (\<not> truthy (getPathFromId share (segments ''/'' ! 0))
    \<and> sent_status (res (serve disk share (get ''/''))) = Some 404)
   \<and> (\<not> truthy (getPathFromId share (segments ''/f9/meta'' ! 0))
    \<and> sent_status (res (serve disk share (get ''/f9/meta''))) = Some 404)"
proof -
  have a: "\<not> valid_shape (segments ''/a/b/c'')"
    by (simp add: valid_shape_def segments_def endsWith_def)
  have b: "\<not> truthy (getPathFromId share (segments ''/'' ! 0))"
    by (simp add: segments_def endsWith_def getPathFromId_def share_def)
  have c: "\<not> truthy (getPathFromId share (segments ''/f9/meta'' ! 0))"
    by (simp add: segments_def endsWith_def getPathFromId_def share_def)
  show ?thesis
    using a b c
      unresolvable_request_is_404 [of "get ''/a/b/c''" share disk]
      unresolvable_request_is_404 [of "get ''/''" share disk]
      unresolvable_request_is_404 [of "get ''/f9/meta''" share disk]
    by (simp add: get_def)
qed

section \<open>Properties of the handlers\<close>

text \<open>
  Claim C3. When the store resolves the identifier to an entry, the answer to
  \<^verbatim>\<open>GET /{id}/meta\<close> has status 200 and content type \<^verbatim>\<open>application/json\<close>, and
  its body is the JSON text of the entry without its \<^verbatim>\<open>path\<close>: no property of the
  serialised object is called \<^verbatim>\<open>path\<close>, and every other property is the entry's.
\<close>

theorem meta_request_serves_entry_without_path:
  assumes "url req = ''/'' @ i @ ''/meta''" and "CHR ''/'' \<notin> set i"
    and "getPathFromId m i = JStr p" and "p \<noteq> []"
    and "map_of (files m) p = Some e"
  shows "sent_status (res (serve E m req)) = Some 200
         \<and> sent_header (res (serve E m req)) ''Content-Type'' = Some ''application/json''
         \<and> body (res (serve E m req)) = [Json (JObj (delete ''path'' e))]
         \<and> ended (res (serve E m req))
         \<and> ''path'' \<notin> fst ` set (delete ''path'' e)
         \<and> (\<forall>k. k \<noteq> ''path'' \<longrightarrow> map_of (delete ''path'' e) k = map_of e k)"
proof -
  define s where "s = logger (request_line req) (arrival m)"
  have s0: "res s = fresh" "md s = m"
    by (simp_all add: s_def logger_def arrival_def)
  have seg: "segments (url req) = [i, ''meta'']"
    using segments_meta [OF assms(2)] assms(1) by simp
  have "validateRequest req s = (Inr [i, ''meta''], did (GetPathFromId i) s)"
    using validateRequest_accepts [of req s] assms(3,4) seg s0 by (simp add: valid_shape_def)
  then have "rootHandler E req (arrival m) =
               snd (metaDataRequestHandler [i, ''meta''] (did (GetPathFromId i) s))"
    by (simp add: rootHandler_def try_block_def s_def [symmetric]
        metaDataRequestHandler_def lookup_entry_eq Let_def)
  moreover have "piping (snd (metaDataRequestHandler [i, ''meta''] (did (GetPathFromId i) s))) = None"
    by (simp add: metaDataRequestHandler_def lookup_entry_eq Let_def on_res_def did_def
        s_def logger_def arrival_def)
  ultimately have "serve E m req = snd (metaDataRequestHandler [i, ''meta''] (did (GetPathFromId i) s))"
    by (simp add: serve_def stream_events_idle)
  moreover have "getData m (JStr p) = JObj e"
    using assms(5) by (simp add: getData_def)
  ultimately have r: "res (serve E m req) =
      end_response (res_write (Json (JObj (delete ''path'' e))) (writeHead 200 json_head fresh))"
    using assms(3) s0
    by (simp add: metaDataRequestHandler_def lookup_entry_eq Let_def did_def on_res_def)
  have k: "\<And>k. k \<noteq> ''path'' \<Longrightarrow> map_of (delete ''path'' e) k = map_of e k"
    by (induction e) (auto simp: delete_def)
  show ?thesis
    using k by (auto simp: r end_response_def res_write_def writeHead_def implicitHead_def
        fresh_def sent_status_def sent_header_def json_head_def delete_def)
qed


theorem meta_request_serves_entry_without_path_witness:
  "url (get ''/f1/meta'') = ''/'' @ ''f1'' @ ''/meta'' \<and> CHR ''/'' \<notin> set ''f1''
   \<and> getPathFromId share ''f1'' = JStr ''/srv/share/a.txt'' \<and> ''/srv/share/a.txt'' \<noteq> []
   \<and> map_of (files share) ''/srv/share/a.txt'' =
        Some [(''id'', JStr ''f1''), (''path'', JStr ''/srv/share/a.txt''), (''name'', JStr ''a.txt''),
              (''type'', JStr ''file''), (''downloadCount'', JNum 2)]
   \<and> body (res (serve disk share (get ''/f1/meta''))) =
        [Json (JObj [(''id'', JStr ''f1''), (''name'', JStr ''a.txt''), (''type'', JStr ''file''),
                     (''downloadCount'', JNum 2)])]"
proof -
  have u: "url (get ''/f1/meta'') = ''/'' @ ''f1'' @ ''/meta''"
    by (simp add: get_def)
  have i: "CHR ''/'' \<notin> set ''f1''"
    by simp
  have p: "getPathFromId share ''f1'' = JStr ''/srv/share/a.txt''"
    by (simp add: getPathFromId_def share_def)
  have n: "''/srv/share/a.txt'' \<noteq> []"
    by simp
  have e: "map_of (files share) ''/srv/share/a.txt'' =
        Some [(''id'', JStr ''f1''), (''path'', JStr ''/srv/share/a.txt''), (''name'', JStr ''a.txt''),
              (''type'', JStr ''file''), (''downloadCount'', JNum 2)]"
    by (simp add: share_def)
  show ?thesis
    using u i p n e meta_request_serves_entry_without_path [OF u i p n e, of disk]
    by (simp add: delete_def)
qed

text \<open>
  Claim C4. When the store resolves the identifier to a directory entry and the
  directory can be read, the answer to \<^verbatim>\<open>GET /{id}\<close> has status 200 and content type
  \<^verbatim>\<open>application/json\<close>, and its body is the JSON text of \<^verbatim>\<open>{ id, children }\<close>:
  \<^verbatim>\<open>id\<close> is the identifier requested, and \<^verbatim>\<open>children\<close> holds, in the order of the
  directory, the \<^verbatim>\<open>{ name, id }\<close> of exactly those children of the directory that the
  store has.
\<close>

theorem directory_request_lists_shared_children:
  assumes "url req = ''/'' @ i" and "CHR ''/'' \<notin> set i"
    and "getPathFromId m i = JStr p" and "p \<noteq> []"
    and "map_of (files m) p = Some e"
    and "field e ''type'' = JStr ''dir''" and "field e ''path'' = JStr dir"
    and "readdir E dir = Inr names"
  shows "sent_status (res (serve E m req)) = Some 200
         \<and> sent_header (res (serve E m req)) ''Content-Type'' = Some ''application/json''
         \<and> body (res (serve E m req)) =
             [Json (JObj [(''id'', JStr i),
                          (''children'', JArr (map (name_and_id m)
                                                 (filter (hasFile m) (map (join E dir) names))))])]
         \<and> ended (res (serve E m req))"
proof -
  define s where "s = did (GetPathFromId i) (logger (request_line req) (arrival m))"
  have s0: "res s = fresh" "md s = m" "piping s = None"
    by (simp_all add: s_def logger_def arrival_def did_def)
  have seg: "segments (url req) = [i]"
    using segments_id [OF assms(2)] assms(1) by simp
  have "try_block E req (arrival m) = fileRequestHandler E [i] s"
    using accepted_request [of req m E] assms(3,4) seg by (simp add: valid_shape_def s_def)
  moreover have "getData m (JStr p) = JObj e"
    using assms(5) by (simp add: getData_def)
  ultimately have "try_block E req (arrival m) =
      (None, (on_res end_response (on_res (res_write (Json (JObj [(''id'', JStr i),
                          (''children'', JArr (map (name_and_id m)
                                (filter (hasFile m) (map (join E dir) names))))])))
          (on_res (writeHead 200 json_head)
             (s\<lparr>trace := trace s @ [GetPathFromId i, GetData (JStr p), Readdir (JStr dir)]
                    @ concat (map (child_reads m) (map (join E dir) names))\<rparr>)))))"
    using assms(3,6,7,8) s0
    by (simp add: fileRequestHandler_def lookup_entry_eq list_children_eq Let_def did_def
        Fs_readdir_def on_res_def)
  then have r: "res (serve E m req) =
      end_response (res_write (Json (JObj [(''id'', JStr i),
                          (''children'', JArr (map (name_and_id m)
                                (filter (hasFile m) (map (join E dir) names))))]))
         (writeHead 200 json_head fresh))"
    using s0 by (simp add: serve_def stream_events_idle rootHandler_def on_res_def)
  show ?thesis
    by (simp add: r end_response_def res_write_def writeHead_def implicitHead_def
        fresh_def sent_status_def sent_header_def json_head_def)
qed


text \<open>The directory holds a shared and an unshared file: the shared one is listed.\<close>

theorem directory_request_lists_shared_children_witness:
  "url (get ''/d1'') = ''/'' @ ''d1'' \<and> CHR ''/'' \<notin> set ''d1''
   \<and> getPathFromId share ''d1'' = JStr ''/srv/share'' \<and> ''/srv/share'' \<noteq> []
   \<and> map_of (files share) ''/srv/share'' =
        Some [(''id'', JStr ''d1''), (''path'', JStr ''/srv/share''), (''name'', JStr ''share''),
              (''type'', JStr ''dir''), (''downloadCount'', JNum 0)]
   \<and> readdir disk ''/srv/share'' = Inr [''a.txt'', ''b.txt'']
   \<and> body (res (serve disk share (get ''/d1''))) =
        [Json (JObj [(''id'', JStr ''d1''),
                     (''children'', JArr [JObj [(''name'', JStr ''a.txt''), (''id'', JStr ''f1'')]])])]"
proof -
  let ?e = "[(''id'', JStr ''d1''), (''path'', JStr ''/srv/share''), (''name'', JStr ''share''),
             (''type'', JStr ''dir''), (''downloadCount'', JNum 0)]"
  have u: "url (get ''/d1'') = ''/'' @ ''d1''"
    by (simp add: get_def)
  have i: "CHR ''/'' \<notin> set ''d1''"
    by simp
  have p: "getPathFromId share ''d1'' = JStr ''/srv/share''"
    by (simp add: getPathFromId_def share_def)
  have n: "''/srv/share'' \<noteq> []"
    by simp
  have e: "map_of (files share) ''/srv/share'' = Some ?e"
    by (simp add: share_def)
  have t: "field ?e ''type'' = JStr ''dir''"
    by (simp add: field_def)
  have d: "field ?e ''path'' = JStr ''/srv/share''"
    by (simp add: field_def)
  have r: "readdir disk ''/srv/share'' = Inr [''a.txt'', ''b.txt'']"
    by (simp add: disk_def)
  have c: "map (name_and_id share) (filter (hasFile share) (map (join disk ''/srv/share'') [''a.txt'', ''b.txt'']))
           = [JObj [(''name'', JStr ''a.txt''), (''id'', JStr ''f1'')]]"
    by (simp add: disk_def hasFile_def share_def name_and_id_def getData_def field_def)
  show ?thesis
    using u i p n e r c directory_request_lists_shared_children [OF u i p n e t d r]
    by simp
qed

text \<open>
  Claim C2, as the code has it. The calls of \<^verbatim>\<open>incrementDownload\<close> that the handling
  of a request makes: exactly one, with the path of the entry, when the request is a
  content request for a file and \<^verbatim>\<open>createReadStream\<close> has returned a stream for it;
  none for any other request, so none for a directory and none for a metadata request.
  The call is made when the stream has been piped into the response, before the file is
  opened: it does not depend on what the stream does afterwards, which decides alone
  whether the response is ended or an error is left unhandled.
\<close>

theorem increment_when_stream_is_piped:
  "filter is_increment (trace (serve E m req)) =
     (if file_fetch m req then [IncrementDownload (fetched m req)] else [])
   \<and> (file_fetch m req \<longrightarrow>
        (\<exists>p. fetched m req = JStr p
           \<and> uncaught (serve E m req) = snd (read_stream E p)
           \<and> ended (res (serve E m req)) = (snd (read_stream E p) = None)))"
  using serve_store_and_increments [of E m req] file_fetch_outcome [of m req E]
  by blast

text \<open>
  The file of a shared entry is gone from the disk: its read stream fails to open and
  delivers nothing, the response is never written nor ended, and the download has been
  counted all the same.
\<close>

theorem increment_without_read_counterexample:
  "filter is_increment (trace (serve disk share (get ''/f2''))) =
     [IncrementDownload (JStr ''/srv/share/old.txt'')]
   \<and> read_stream disk ''/srv/share/old.txt'' = ([], Some (ENOENT ''/srv/share/old.txt''))
   \<and> uncaught (serve disk share (get ''/f2'')) = Some (ENOENT ''/srv/share/old.txt'')
   \<and> body (res (serve disk share (get ''/f2''))) = []
   \<and> \<not> ended (res (serve disk share (get ''/f2'')))"
proof -
  have "read_stream disk ''/srv/share/old.txt'' = ([], Some (ENOENT ''/srv/share/old.txt''))"
    by (simp add: disk_def)
  then show ?thesis
    by (simp add: serve_f2 writeHead_def fresh_def)
qed

text \<open>A file that is read to its end, a directory and the metadata of the file.\<close>

theorem increment_when_stream_is_piped_witness:
  "(file_fetch share (get ''/f1'')
      \<and> filter is_increment (trace (serve disk share (get ''/f1''))) =
            [IncrementDownload (JStr ''/srv/share/a.txt'')]
      \<and> ended (res (serve disk share (get ''/f1''))))
   \<and> (file_fetch share (get ''/f2'')
      \<and> filter is_increment (trace (serve disk share (get ''/f2''))) =
            [IncrementDownload (JStr ''/srv/share/old.txt'')]
      \<and> \<not> ended (res (serve disk share (get ''/f2''))))
   \<and> (\<not> file_fetch share (get ''/d1'')
      \<and> filter is_increment (trace (serve disk share (get ''/d1''))) = [])
   \<and> (\<not> file_fetch share (get ''/f1/meta'')
      \<and> filter is_increment (trace (serve disk share (get ''/f1/meta''))) = [])"
proof -
  have f: "file_fetch share (get ''/f1'')"
    and p: "fetched share (get ''/f1'') = JStr ''/srv/share/a.txt''"
    and g: "file_fetch share (get ''/f2'')"
    and q: "fetched share (get ''/f2'') = JStr ''/srv/share/old.txt''"
    by (simp_all add: file_fetch_def fetched_def get_def segments_def endsWith_def
        getPathFromId_def share_def stream_created_def entry_path_def getData_def field_def
        Fs_createReadStream_def)
  have d: "\<not> file_fetch share (get ''/d1'')"
    by (simp add: file_fetch_def get_def segments_def endsWith_def
        getPathFromId_def share_def stream_created_def getData_def field_def)
  have m: "\<not> file_fetch share (get ''/f1/meta'')"
    by (simp add: file_fetch_def get_def segments_def endsWith_def)
  have r: "snd (read_stream disk ''/srv/share/a.txt'') = None"
    "snd (read_stream disk ''/srv/share/old.txt'') \<noteq> None"
    by (simp_all add: disk_def)
  show ?thesis
    using f p g q d m r
      increment_when_stream_is_piped [of disk share "get ''/f1''"]
      increment_when_stream_is_piped [of disk share "get ''/f2''"]
      increment_when_stream_is_piped [of disk share "get ''/d1''"]
      increment_when_stream_is_piped [of disk share "get ''/f1/meta''"]
    by simp
qed

text \<open>
  Claim C9. The handling of a request leaves the store as it was, unless the request is
  a content request for a file whose read stream was created: then the store is the
  result of the one \<^verbatim>\<open>incrementDownload\<close> of the file's path, which has the same
  identifiers and the same entries, but for the \<^verbatim>\<open>downloadCount\<close> of the entry at that
  path.
\<close>

theorem store_changes_only_download_count:
  "(\<not> file_fetch m req \<longrightarrow> md (serve E m req) = m)
   \<and> (file_fetch m req \<longrightarrow>
        (\<exists>p. fetched m req = JStr p
           \<and> md (serve E m req) = incrementDownload m (JStr p)
           \<and> same_but_count_at p m (md (serve E m req))))"
  using serve_store_and_increments [of E m req] file_fetch_string_path [of m req]
    incrementDownload_frame [of _ m]
  by auto


text \<open>The file's counter goes from two to three; listing the directory changes nothing.\<close>

theorem store_changes_only_download_count_witness:
  "(file_fetch share (get ''/f1'')
      \<and> md (serve disk share (get ''/f1'')) = incrementDownload share (JStr ''/srv/share/a.txt'')
      \<and> same_but_count_at ''/srv/share/a.txt'' share (md (serve disk share (get ''/f1'')))
      \<and> getData (md (serve disk share (get ''/f1''))) (JStr ''/srv/share/a.txt'') =
           JObj [(''id'', JStr ''f1''), (''path'', JStr ''/srv/share/a.txt''),
                 (''name'', JStr ''a.txt''), (''type'', JStr ''file''), (''downloadCount'', JNum 3)])
   \<and> (\<not> file_fetch share (get ''/d1'') \<and> md (serve disk share (get ''/d1'')) = share)"
proof -
  have f: "file_fetch share (get ''/f1'')"
    and p: "fetched share (get ''/f1'') = JStr ''/srv/share/a.txt''"
    by (simp_all add: file_fetch_def fetched_def get_def segments_def endsWith_def
        getPathFromId_def share_def stream_created_def entry_path_def getData_def field_def
        Fs_createReadStream_def)
  have d: "\<not> file_fetch share (get ''/d1'')"
    by (simp add: file_fetch_def get_def segments_def endsWith_def
        getPathFromId_def share_def stream_created_def getData_def field_def)
  have c: "getData (incrementDownload share (JStr ''/srv/share/a.txt'')) (JStr ''/srv/share/a.txt'') =
           JObj [(''id'', JStr ''f1''), (''path'', JStr ''/srv/share/a.txt''),
                 (''name'', JStr ''a.txt''), (''type'', JStr ''file''), (''downloadCount'', JNum 3)]"
    by (simp add: incrementDownload_def share_def getData_def bump_def)
  show ?thesis
    using f p d c
      store_changes_only_download_count [of share "get ''/f1''" disk]
      store_changes_only_download_count [of share "get ''/d1''" disk]
    by auto
qed

text \<open>
  Claim C7, which the code misses for the read stream of a file. The directory that is
  gone from the disk shows what the \<^verbatim>\<open>catch\<close> block does with an error that reaches
  it: status 500, no body, the error and its stack in the log. The file that is gone from
  the disk raises the same kind of error, but on the read stream, after the handler has
  returned; the stream has no listener for it, so nobody answers and nobody logs: no
  status reaches the requester, and the log has the request line only.
\<close>

theorem stream_error_is_not_answered:
  "(sent_status (res (serve disk share (get ''/d2''))) = Some 500
      \<and> body (res (serve disk share (get ''/d2''))) = []
      \<and> logs (serve disk share (get ''/d2'')) =
          [request_line (get ''/d2''),
           LogError (''HTTPService: '' @ toString (ENOENT ''/srv/gone'')),
           LogDebug (''HTTPService: stack of '' @ toString (ENOENT ''/srv/gone''))]
      \<and> uncaught (serve disk share (get ''/d2'')) = None)
   \<and> (uncaught (serve disk share (get ''/f2'')) = Some (ENOENT ''/srv/share/old.txt'')
      \<and> code (ENOENT ''/srv/share/old.txt'') \<noteq> JNum 404
      \<and> sent_status (res (serve disk share (get ''/f2''))) = None
      \<and> \<not> ended (res (serve disk share (get ''/f2'')))
      \<and> logs (serve disk share (get ''/f2'')) = [request_line (get ''/f2'')])"
proof -
  have "serve disk share (get ''/d2'') =
          (arrival share)\<lparr>res := fresh\<lparr>statusCode := 500, head := Some (500, []), ended := True\<rparr>,
            trace := [GetPathFromId ''d2'', GetPathFromId ''d2'', GetData (JStr ''/srv/gone''),
                      Readdir (JStr ''/srv/gone'')],
            logs := [request_line (get ''/d2''),
                     LogError (''HTTPService: '' @ toString (ENOENT ''/srv/gone'')),
                     LogDebug (''HTTPService: stack of '' @ toString (ENOENT ''/srv/gone''))]\<rparr>"
    by (simp add: serve_def stream_events_def rootHandler_def try_block_def validateRequest_def
        segments_def endsWith_def get_def getPathFromId_def share_def did_def logger_def
        arrival_def fileRequestHandler_def lookup_entry_def getData_def field_def Fs_readdir_def
        disk_def Let_def catch_def ENOENT_code on_res_def end_response_def
        implicitHead_def fresh_def)
  then show ?thesis
    by (simp add: serve_f2 sent_status_def fresh_def arrival_def ENOENT_code writeHead_def)
qed

section \<open>Properties of the life cycle\<close>

text \<open>
  Claim C10. The constructor throws an \<^verbatim>\<open>Error\<close>, and yields no service, when the
  store or the port it is handed is falsy; handed a store and a truthy port it yields a
  service that holds both and does not listen, and logs nothing.
\<close>

theorem constructor_checks_arguments:
  "(\<not> given metaData \<or> \<not> truthy port \<longrightarrow>
      (\<exists>err. fst (HTTPService metaData port lg) = Inl err \<and> ename err = ''Error''))
   \<and> (given metaData \<and> truthy port \<longrightarrow>
      (\<exists>svc. HTTPService metaData port lg = (Inr svc, lg) \<and> \<not> listening svc
         \<and> svc_metaData svc = metaData \<and> svc_port svc = port))"
  by (simp add: HTTPService_def Error_def)

theorem constructor_checks_arguments_witness:
  "(\<not> truthy (JNum 0)
      \<and> (\<exists>err. fst (HTTPService (Store share) (JNum 0) []) = Inl err \<and> ename err = ''Error''))
   \<and> (\<not> given (Other JUndefined)
      \<and> (\<exists>err. fst (HTTPService (Other JUndefined) (JNum 8080) []) = Inl err
            \<and> ename err = ''Error''))
   \<and> (given (Store share) \<and> truthy (JNum 8080)
      \<and> (\<exists>svc. HTTPService (Store share) (JNum 8080) [] = (Inr svc, []) \<and> \<not> listening svc))"
  using constructor_checks_arguments [of "Store share" "JNum 0" "[]"]
        constructor_checks_arguments [of "Other JUndefined" "JNum 8080" "[]"]
        constructor_checks_arguments [of "Store share" "JNum 8080" "[]"]
  by auto

text \<open>
  Claim C5, as the code has it. When binding the listener fails, \<^verbatim>\<open>start\<close> returns to
  its caller without an error and the service is as it was: the failure reaches the
  listener registered for \<^verbatim>\<open>error\<close>, which logs the error and its stack and does
  nothing else.
\<close>

theorem start_returns_on_bind_failure:
  "fst (start (BindError err) svc lg) = None
   \<and> fst (snd (start (BindError err) svc lg)) = svc
   \<and> (\<exists>label. snd (snd (start (BindError err) svc lg)) =
          lg @ [LogDebug ''HTTPService: Start function called'',
                LogError (label @ toString err),
                LogDebug (label @ ''stack of '' @ toString err)])"
proof -
  have e: "start (BindError err) svc lg =
          (None, svc, lg @ [LogDebug ''HTTPService: Start function called'',
                            LogError (''UDPService: '' @ toString err),
                            LogDebug (''UDPService: '' @ ''stack of '' @ toString err)])"
    by (simp add: start_def)
  show ?thesis
    unfolding e fst_conv snd_conv
    by (intro conjI refl exI [of _ "''UDPService: ''"])
qed

text \<open>The port is in use: the call to \<^verbatim>\<open>start\<close> ends without an error.\<close>

theorem start_bind_failure_counterexample:
  "fst (start (BindError ((Error ''listen EADDRINUSE: address already in use'')
                            \<lparr>code := JStr ''EADDRINUSE''\<rparr>))
          \<lparr>svc_metaData = Store share, svc_port = JNum 8080, listening = False, connections = 0\<rparr>
          []) = None"
  by (simp add: start_def)

section \<open>Properties of the restart\<close>

lemma fold_max_ge: "(a::nat) \<le> fold max xs a \<and> (\<forall>x \<in> set xs. x \<le> fold max xs a)"
proof (induction xs arbitrary: a)
  case Nil
  then show ?case by simp
next
  case (Cons y ys)
  have "max y a \<le> fold max ys (max y a)" and "\<forall>x \<in> set ys. x \<le> fold max ys (max y a)"
    using Cons.IH [of "max y a"] by simp_all
  then show ?case by auto
qed

lemma fold_min_le:
  "fold min xs (a::nat) \<le> a \<and> (\<forall>x \<in> set xs. fold min xs a \<le> x)
   \<and> fold min xs a \<in> insert a (set xs)"
proof (induction xs arbitrary: a)
  case Nil
  then show ?case by simp
next
  case (Cons y ys)
  define b where "b = min y a"
  have f: "fold min (y # ys) a = fold min ys b"
    by (simp add: b_def)
  have b: "b \<le> a" "b \<le> y" "b = y \<or> b = a"
    by (auto simp: b_def min_def)
  have "fold min ys b \<le> b" and "\<forall>x \<in> set ys. fold min ys b \<le> x"
    and "fold min ys b \<in> insert b (set ys)"
    using Cons.IH [of b] by simp_all
  with b show ?case
    unfolding f by auto
qed

lemma Promise_all_fulfilled:
  assumes "filter rejects ps = []"
  shows "snd (Promise_all ps) = Fulfilled \<and> (\<forall>p \<in> set ps. settles_at p \<le> fst (Promise_all ps))"
  using assms fold_max_ge [of 0 "map settles_at ps"] by (simp add: Promise_all_def)

lemma Promise_all_rejected:
  assumes "filter rejects ps \<noteq> []"
  shows "snd (Promise_all ps) = Rejected
         \<and> (\<exists>p \<in> set ps. rejects p \<and> settles_at p = fst (Promise_all ps))
         \<and> (\<forall>p \<in> set ps. rejects p \<longrightarrow> fst (Promise_all ps) \<le> settles_at p)"
proof -
  obtain r rs where f: "filter rejects ps = r # rs"
    using assms by (cases "filter rejects ps") auto
  define t where "t = fold min (map settles_at rs) (settles_at r)"
  have P: "Promise_all ps = (t, Rejected)"
    using f by (simp add: Promise_all_def t_def)
  have mem: "set (r # rs) = {p \<in> set ps. rejects p}"
    using f by (metis set_filter)
  have a: "t \<le> settles_at r"
    and b: "\<forall>x \<in> set (map settles_at rs). t \<le> x"
    and c: "t \<in> insert (settles_at r) (set (map settles_at rs))"
    using fold_min_le [of "map settles_at rs" "settles_at r"] by (simp_all add: t_def)
  from c have "t \<in> settles_at ` set (r # rs)"
    by simp
  then obtain p where p: "p \<in> set (r # rs)" "t = settles_at p"
    by (rule imageE)
  have le: "\<forall>p \<in> set (r # rs). t \<le> settles_at p"
    using a b by auto
  have "\<exists>p \<in> set ps. rejects p \<and> settles_at p = t"
    using p mem by auto
  moreover have "\<forall>p \<in> set ps. rejects p \<longrightarrow> t \<le> settles_at p"
    using le mem by auto
  ultimately show ?thesis
    by (simp add: P)
qed

text \<open>
  Claim C6, as the code has it. On a configuration update that has been written, with a
  server running, the owning process asks the server to stop and waits for
  \<^verbatim>\<open>Promise.all\<close> of the stop signals; then it constructs the new server from the
  updated configuration and starts it, after logging the failure if there was one. When
  no stop signal is rejected, that moment is not before any of the signals has settled.
  When one is rejected, it is the moment of the earliest rejection, whatever the other
  signals do.
\<close>

theorem restart_waits_for_stop_or_first_failure:
  assumes "construct S (Object_assign config update) = Inr new"
    and "start_throws S new = None"
  shows "config_update S True config update (Some old) =
           (Object_assign config update, Some new,
            [(0, StopRequested)]
            @ (if snd (Promise_all (stop_signals S old)) = Rejected
               then [(fst (Promise_all (stop_signals S old)), LoggedError)] else [])
            @ [(fst (Promise_all (stop_signals S old)), Constructed (Object_assign config update)),
               (fst (Promise_all (stop_signals S old)), Started)])
         \<and> (filter rejects (stop_signals S old) = [] \<longrightarrow>
              snd (Promise_all (stop_signals S old)) = Fulfilled
              \<and> (\<forall>p \<in> set (stop_signals S old). settles_at p \<le> fst (Promise_all (stop_signals S old))))
         \<and> (filter rejects (stop_signals S old) \<noteq> [] \<longrightarrow>
              snd (Promise_all (stop_signals S old)) = Rejected
              \<and> (\<exists>p \<in> set (stop_signals S old).
                    rejects p \<and> settles_at p = fst (Promise_all (stop_signals S old)))
              \<and> (\<forall>p \<in> set (stop_signals S old).
                    rejects p \<longrightarrow> fst (Promise_all (stop_signals S old)) \<le> settles_at p))"
proof -
  have "config_update S True config update (Some old) =
           (Object_assign config update, Some new,
            [(0, StopRequested)]
            @ (if snd (Promise_all (stop_signals S old)) = Rejected
               then [(fst (Promise_all (stop_signals S old)), LoggedError)] else [])
            @ [(fst (Promise_all (stop_signals S old)), Constructed (Object_assign config update)),
               (fst (Promise_all (stop_signals S old)), Started)])"
    using assms by (simp add: config_update_def createServer_def Let_def split: prod.splits)
  then show ?thesis
    using Promise_all_fulfilled [of "stop_signals S old"] Promise_all_rejected [of "stop_signals S old"]
    by blast
qed

text \<open>
  One stop signal is rejected after one tick, the other is fulfilled after five: the new
  server is constructed and started at the first tick.
\<close>

theorem restart_before_stop_counterexample:
  "snd (snd (config_update hasty True [(''port'', JNum 8080)] [(''port'', JNum 9090)] (Some ()))) =
     [(0, StopRequested), (1, LoggedError), (1, Constructed [(''port'', JNum 9090)]), (1, Started)]
   \<and> stop_signals hasty () ! 1 = Promise 5 Fulfilled
   \<and> (1::nat) < settles_at (stop_signals hasty () ! 1)"
  by (simp add: config_update_def createServer_def hasty_def Promise_all_def Object_assign_def Let_def)

theorem restart_waits_for_stop_or_first_failure_witness:
  "construct orderly (Object_assign [(''port'', JNum 8080)] [(''port'', JNum 9090)]) = Inr ()
   \<and> start_throws orderly () = None
   \<and> filter rejects (stop_signals orderly ()) = []
   \<and> config_update orderly True [(''port'', JNum 8080)] [(''port'', JNum 9090)] (Some ()) =
       ([(''port'', JNum 9090)], Some (),
        [(0, StopRequested), (5, Constructed [(''port'', JNum 9090)]), (5, Started)])
   \<and> construct hasty (Object_assign [(''port'', JNum 8080)] [(''port'', JNum 9090)]) = Inr ()
   \<and> start_throws hasty () = None
   \<and> filter rejects (stop_signals hasty ()) \<noteq> []
   \<and> fst (Promise_all (stop_signals hasty ())) = 1"
proof -
  have a: "construct orderly (Object_assign [(''port'', JNum 8080)] [(''port'', JNum 9090)]) = Inr ()"
    and b: "start_throws orderly () = None"
    and c: "construct hasty (Object_assign [(''port'', JNum 8080)] [(''port'', JNum 9090)]) = Inr ()"
    and d: "start_throws hasty () = None"
    by (simp_all add: orderly_def hasty_def)
  have e: "Promise_all (stop_signals orderly ()) = (5, Fulfilled)"
    and f: "Promise_all (stop_signals hasty ()) = (1, Rejected)"
    and g: "Object_assign [(''port'', JNum 8080)] [(''port'', JNum 9090)] = [(''port'', JNum 9090)]"
    by (simp_all add: orderly_def hasty_def Promise_all_def Object_assign_def)
  show ?thesis
    using a b c d e f g
      restart_waits_for_stop_or_first_failure [OF a b, of "()"]
      restart_waits_for_stop_or_first_failure [OF c d, of "()"]
    by (simp add: orderly_def hasty_def)
qed


section \<open>Properties of the shutdown\<close>



end
